theory Spec2Isabelle
  imports Main
begin

section \<open>Errors\<close>

text \<open>
  Every exception of the TypeScript code is a value. \<open>CapacityExceeded\<close> is thrown by
  the accumulator, \<open>TypeError\<close> by a method call on a \<open>null\<close> poll, the four
  \<open>ErrorCodes\<close> by the proof generator service, \<open>DeserializationError\<close> and
  \<open>ExternalFailure\<close> by collaborators whose code is outside \<open>src/\<close>.
\<close>

datatype error =
    CapacityExceeded
  | TypeError
  | DeserializationError
  | POLL_NOT_FOUND
  | NOT_MERGED_STATE_TREE
  | NOT_MERGED_MESSAGE_TREE
  | PRIVATE_KEY_MISMATCH
  | ExternalFailure string

section \<open>JavaScript numbers and their decimal text\<close>

text \<open>
  \<open>currentPollBeingProcessed\<close> is a JavaScript \<open>number\<close> holding a poll index. The
  model covers the integers and \<open>NaN\<close> (what \<open>Number.parseInt\<close> returns when no digit
  is found); \<open>undefined\<close> is \<open>None\<close> of the option type where the field is optional.
  A \<open>number\<close> represents every integer up to \<open>Number.MAX_SAFE_INTEGER\<close> in absolute
  value, and prints those in plain decimal digits.
\<close>

datatype jsnumber = Num int | NaN

fun safeNumber :: "jsnumber option \<Rightarrow> bool" where
  "safeNumber (Some (Num n)) = (\<bar>n\<bar> \<le> 9007199254740991)"
| "safeNumber _ = True"

definition digitChar :: "nat \<Rightarrow> char" where
  "digitChar d = char_of (48 + d)"

definition isDigit :: "char \<Rightarrow> bool" where
  "isDigit c = (48 \<le> (of_char c :: nat) \<and> (of_char c :: nat) \<le> 57)"

definition digitVal :: "char \<Rightarrow> nat" where
  "digitVal c = of_char c - 48"

fun natToString :: "nat \<Rightarrow> string" where
  "natToString n =
     (if n < 10 then [digitChar n] else natToString (n div 10) @ [digitChar (n mod 10)])"

declare natToString.simps [simp del]

text \<open>\<open>Number.prototype.toString()\<close> and \<open>BigInt.prototype.toString()\<close> on an integer.\<close>

definition numToString :: "int \<Rightarrow> string" where
  "numToString i = (if i < 0 then CHR ''-'' # natToString (nat (- i)) else natToString (nat i))"

text \<open>The ASCII members of the white space that \<open>parseInt\<close> skips.\<close>

definition isWhiteSpace :: "char \<Rightarrow> bool" where
  "isWhiteSpace c = (c \<in> set [CHR 0x09, CHR 0x0A, CHR 0x0B, CHR 0x0C, CHR 0x0D, CHR 0x20])"

definition stripSign :: "string \<Rightarrow> bool \<times> string" where
  "stripSign t =
     (case t of
        [] \<Rightarrow> (False, [])
      | c # r \<Rightarrow> if c = CHR ''-'' then (True, r) else if c = CHR ''+'' then (False, r) else (False, t))"

text \<open>\<open>Number.parseInt(s, 10)\<close>: leading white space, an optional sign, then the longest
  run of decimal digits; \<open>NaN\<close> when that run is empty.\<close>

definition parseInt10 :: "string \<Rightarrow> jsnumber" where
  "parseInt10 s =
     (let (neg, u) = stripSign (dropWhile isWhiteSpace s);
          ds = takeWhile isDigit u
      in if ds = [] then NaN
         else (let v = foldl (\<lambda>a c. 10 * a + int (digitVal c)) 0 ds
               in Num (if neg then - v else v)))"

text \<open>JavaScript truthiness of an optional number: \<open>undefined\<close>, \<open>0\<close> and \<open>NaN\<close> are falsy.\<close>

fun truthy :: "jsnumber option \<Rightarrow> bool" where
  "truthy (Some (Num n)) = (n \<noteq> 0)"
| "truthy _ = False"

section \<open>Domain objects\<close>

type_synonym PubKey = "int \<times> int"

text \<open>Modelled from the spec: \<open>StateLeaf\<close> of \<open>maci-domainobjs\<close> is not under \<open>src/\<close>.
  The spec gives it as \<open>{publicKey, voiceCreditBalance, signUpTimestamp}\<close>; the field
  names are those of the constructor call in \<open>signUp\<close>. A leaf is a value, so
  \<open>StateLeaf.copy\<close> is the identity and \<open>StateLeaf.equals\<close> is equality of the fields.\<close>

record StateLeaf =
  pubKey :: PubKey
  voiceCreditBalance :: int
  timestamp :: int

text \<open>Modelled from the spec: \<open>Keypair\<close> of \<open>maci-domainobjs\<close>, a private key with its
  public key.\<close>

record Keypair =
  kpPrivKey :: int
  kpPubKey :: PubKey

text \<open>Modelled from the spec: the type declarations of \<open>./utils/types\<close> are not under
  \<open>src/\<close>. \<open>intStateTreeDepth\<close> is the one field the code reads.\<close>

record TreeDepths =
  intStateTreeDepth :: nat
  messageTreeDepth :: nat
  voteOptionTreeDepth :: nat

record MaxValues =
  maxMessages :: nat
  maxVoteOptions :: nat

record BatchSizes =
  messageBatchSize :: nat
  subsidyBatchSize :: nat
  tallyBatchSize :: nat

text \<open>Modelled from the spec: \<open>Poll\<close> (\<open>./Poll\<close>) is not under \<open>src/\<close>. A poll is what
  its constructor is given in \<open>deployPoll\<close>: end time, coordinator keypair, tree depths,
  batch sizes and maximum values. The back-reference to the owning \<open>MaciState\<close> is
  non-owning and is left out of the value. \<open>Poll.copy\<close> is the identity on this value and
  \<open>Poll.equals\<close> is equality of the fields; both throw on \<open>null\<close>.\<close>

record Poll =
  pollEndTimestamp :: int
  coordinatorKeypair :: Keypair
  treeDepths :: TreeDepths
  batchSizes :: BatchSizes
  maxValues :: MaxValues

section \<open>The incremental accumulator\<close>

text \<open>Modelled from the spec: \<open>IncrementalQuinTree\<close> of \<open>maci-crypto\<close> is not under
  \<open>src/\<close>. The spec describes a fixed-arity, fixed-depth, append-only tree whose state is
  its insertion log, and whose insertion beyond the configured depth fails with
  \<open>CapacityExceeded\<close>. The root is a function of the four fields below (and of the hash
  function given to the constructor), so two equal trees have equal roots.\<close>

record IncrementalQuinTree =
  depth :: nat
  zeroValue :: int
  arity :: nat
  leaves :: "int list"

definition newTree :: "nat \<Rightarrow> int \<Rightarrow> nat \<Rightarrow> IncrementalQuinTree" where
  "newTree d z a = \<lparr>depth = d, zeroValue = z, arity = a, leaves = []\<rparr>"

definition capacity :: "IncrementalQuinTree \<Rightarrow> nat" where
  "capacity t = arity t ^ depth t"

definition insert_leaf :: "IncrementalQuinTree \<Rightarrow> int \<Rightarrow> error + IncrementalQuinTree" where
  "insert_leaf t v =
     (if length (leaves t) < capacity t then Inr (t\<lparr>leaves := leaves t @ [v]\<rparr>)
      else Inl CapacityExceeded)"

section \<open>MaciState\<close>

text \<open>The class \<open>MaciState\<close> of \<open>core/ts/MaciState.ts\<close>. \<open>polls\<close> may hold \<open>null\<close>
  (\<open>deployNullPoll\<close>), so its elements are optional. The two bookkeeping fields are
  optional in the source (\<open>undefined\<close> until assigned). The depth and the counter are
  JavaScript numbers that hold natural numbers.\<close>

record MaciState =
  polls :: "Poll option list"
  stateTree :: IncrementalQuinTree
  stateLeaves :: "StateLeaf list"
  stateTreeDepth :: nat
  numSignUps :: nat
  pollBeingProcessed :: "bool option"
  currentPollBeingProcessed :: "jsnumber option"

text \<open>\<open>IJsonMaciState\<close>: the serialized record. The serialized forms of a leaf and of a
  poll are produced by \<open>StateLeaf.toJSON\<close> and \<open>Poll.toJSON\<close>, which are not under
  \<open>src/\<close>; their types are parameters.\<close>

record ('lj, 'pj) IJsonMaciState =
  stateTreeDepthJ :: nat
  pollsJ :: "'pj list"
  stateLeavesJ :: "'lj list"
  pollBeingProcessedJ :: bool
  currentPollBeingProcessedJ :: string
  numSignUpsJ :: nat

text \<open>What \<open>MaciState.ts\<close> imports and \<open>src/\<close> does not hold, taken as parameters: the
  constants \<open>STATE_TREE_ARITY\<close>, \<open>blankStateLeaf\<close> and \<open>blankStateLeafHash\<close>, the hash
  of a leaf, and the JSON codecs of leaves and polls (\<open>Poll.fromJSON\<close> is also given the
  state under construction). A codec may throw.\<close>

record ('lj, 'pj) collaborators =
  STATE_TREE_ARITY :: nat
  blankStateLeaf :: StateLeaf
  blankStateLeafHash :: int
  hashLeaf :: "StateLeaf \<Rightarrow> int"
  leafToJSON :: "StateLeaf \<Rightarrow> 'lj"
  leafFromJSON :: "'lj \<Rightarrow> error + StateLeaf"
  pollToJSON :: "Poll \<Rightarrow> 'pj"
  pollFromJSON :: "'pj \<Rightarrow> MaciState \<Rightarrow> error + Poll"

text \<open>\<open>xs.map(f)\<close> where \<open>f\<close> may throw: the first exception ends the traversal.\<close>

fun mapE :: "('a \<Rightarrow> error + 'b) \<Rightarrow> 'a list \<Rightarrow> error + 'b list" where
  "mapE f [] = Inr []"
| "mapE f (x # xs) =
     (case f x of
        Inl e \<Rightarrow> Inl e
      | Inr y \<Rightarrow> (case mapE f xs of Inl e \<Rightarrow> Inl e | Inr ys \<Rightarrow> Inr (y # ys)))"

text \<open>The constructor. It throws when the accumulator rejects the blank leaf.\<close>

definition newMaciState :: "('lj, 'pj) collaborators \<Rightarrow> nat \<Rightarrow> error + MaciState" where
  "newMaciState env d =
     (case insert_leaf (newTree d (blankStateLeafHash env) (STATE_TREE_ARITY env))
                       (blankStateLeafHash env) of
        Inl e \<Rightarrow> Inl e
      | Inr t \<Rightarrow> Inr \<lparr>polls = [], stateTree = t, stateLeaves = [blankStateLeaf env],
                     stateTreeDepth = d, numSignUps = 0 + 1,
                     pollBeingProcessed = None, currentPollBeingProcessed = None\<rparr>)"

text \<open>\<open>signUp\<close> mutates the object and may throw in the middle: the result is the
  object after the call together with the returned index or the exception. The counter
  is incremented before the insertion, so it stays incremented when the insertion
  throws.\<close>

definition newStateLeaf :: "PubKey \<Rightarrow> int \<Rightarrow> int \<Rightarrow> StateLeaf" where
  "newStateLeaf pk balance ts = \<lparr>pubKey = pk, voiceCreditBalance = balance, timestamp = ts\<rparr>"

definition signUp ::
  "('lj, 'pj) collaborators \<Rightarrow> MaciState \<Rightarrow> PubKey \<Rightarrow> int \<Rightarrow> int \<Rightarrow> MaciState \<times> (error + nat)" where
  "signUp env s pk initialVoiceCreditBalance ts =
     (let s1 = s\<lparr>numSignUps := numSignUps s + 1\<rparr>;
          stateLeaf = newStateLeaf pk initialVoiceCreditBalance ts;
          h = hashLeaf env stateLeaf
      in case insert_leaf (stateTree s1) h of
           Inl e \<Rightarrow> (s1, Inl e)
         | Inr t \<Rightarrow>
             (let s2 = s1\<lparr>stateTree := t\<rparr>;
                  s3 = s2\<lparr>stateLeaves := stateLeaves s2 @ [stateLeaf]\<rparr>
              in (s3, Inr (length (stateLeaves s3) - 1))))"

definition deployPoll ::
  "('lj, 'pj) collaborators \<Rightarrow> MaciState \<Rightarrow> int \<Rightarrow> MaxValues \<Rightarrow> TreeDepths \<Rightarrow> nat \<Rightarrow> Keypair
     \<Rightarrow> MaciState \<times> nat" where
  "deployPoll env s endTs maxVals tds msgBatchSize kp =
     (let poll = \<lparr>pollEndTimestamp = endTs, coordinatorKeypair = kp, treeDepths = tds,
                  batchSizes = \<lparr>messageBatchSize = msgBatchSize,
                                subsidyBatchSize = STATE_TREE_ARITY env ^ intStateTreeDepth tds,
                                tallyBatchSize = STATE_TREE_ARITY env ^ intStateTreeDepth tds\<rparr>,
                  maxValues = maxVals\<rparr>;
          s1 = s\<lparr>polls := polls s @ [Some poll]\<rparr>
      in (s1, length (polls s1) - 1))"

definition deployNullPoll :: "MaciState \<Rightarrow> MaciState" where
  "deployNullPoll s = s\<lparr>polls := polls s @ [None]\<rparr>"

text \<open>A method call on an element of \<open>polls\<close>: \<open>null\<close> throws a \<open>TypeError\<close>.\<close>

definition onPoll :: "(Poll \<Rightarrow> 'a) \<Rightarrow> Poll option \<Rightarrow> error + 'a" where
  "onPoll f p = (case p of None \<Rightarrow> Inl TypeError | Some q \<Rightarrow> Inr (f q))"

text \<open>\<open>copy\<close>: a new object from the constructor, then the leaves and the polls are
  assigned. Nothing else is assigned: the accumulator and the counter are those of the
  constructor.\<close>

definition copy :: "('lj, 'pj) collaborators \<Rightarrow> MaciState \<Rightarrow> error + MaciState" where
  "copy env s =
     (case newMaciState env (stateTreeDepth s) of
        Inl e \<Rightarrow> Inl e
      | Inr copied \<Rightarrow>
          (let c1 = copied\<lparr>stateLeaves := map (\<lambda>x. x) (stateLeaves s)\<rparr>
           in case mapE (onPoll (\<lambda>x. Some x)) (polls s) of
                Inl e \<Rightarrow> Inl e
              | Inr ps \<Rightarrow> Inr (c1\<lparr>polls := ps\<rparr>)))"

text \<open>\<open>this.polls[i].equals(m.polls[i])\<close>.\<close>

definition pollEquals :: "Poll option \<Rightarrow> Poll option \<Rightarrow> error + bool" where
  "pollEquals p q =
     (case p of
        None \<Rightarrow> Inl TypeError
      | Some a \<Rightarrow> (case q of None \<Rightarrow> Inl TypeError | Some b \<Rightarrow> Inr (a = b)))"

text \<open>The two loops of \<open>equals\<close>, element by element; the lists have the same length
  when they run. \<open>Inr False\<close> and \<open>False\<close> are the early \<open>return false\<close>.\<close>

fun pollsLoop :: "Poll option list \<Rightarrow> Poll option list \<Rightarrow> error + bool" where
  "pollsLoop (p # ps) (q # qs) =
     (case pollEquals p q of
        Inl e \<Rightarrow> Inl e
      | Inr b \<Rightarrow> if \<not> b then Inr False else pollsLoop ps qs)"
| "pollsLoop _ _ = Inr True"

fun leavesLoop :: "StateLeaf list \<Rightarrow> StateLeaf list \<Rightarrow> bool" where
  "leavesLoop (x # xs) (y # ys) = (if \<not> (x = y) then False else leavesLoop xs ys)"
| "leavesLoop _ _ = True"

definition equals :: "MaciState \<Rightarrow> MaciState \<Rightarrow> error + bool" where
  "equals this m =
     (let result = (stateTreeDepth this = stateTreeDepth m
                    \<and> length (polls this) = length (polls m)
                    \<and> length (stateLeaves this) = length (stateLeaves m))
      in if \<not> result then Inr False
         else (case pollsLoop (polls this) (polls m) of
                 Inl e \<Rightarrow> Inl e
               | Inr b \<Rightarrow> if \<not> b then Inr False
                          else if \<not> leavesLoop (stateLeaves this) (stateLeaves m) then Inr False
                          else Inr True))"

definition toJSON ::
  "('lj, 'pj) collaborators \<Rightarrow> MaciState \<Rightarrow> error + ('lj, 'pj) IJsonMaciState" where
  "toJSON env s =
     (case mapE (onPoll (pollToJSON env)) (polls s) of
        Inl e \<Rightarrow> Inl e
      | Inr pjs \<Rightarrow>
          Inr \<lparr>stateTreeDepthJ = stateTreeDepth s,
               pollsJ = pjs,
               stateLeavesJ = map (leafToJSON env) (stateLeaves s),
               pollBeingProcessedJ = (pollBeingProcessed s = Some True),
               currentPollBeingProcessedJ =
                 (if truthy (currentPollBeingProcessed s)
                  then (case currentPollBeingProcessed s of
                          Some (Num n) \<Rightarrow> numToString n | _ \<Rightarrow> [])
                  else []),
               numSignUpsJ = numSignUps s\<rparr>)"

text \<open>The loop of \<open>fromJSON\<close> that re-creates the state tree: each serialized leaf is
  decoded again, hashed and inserted.\<close>

fun reinsert ::
  "('lj, 'pj) collaborators \<Rightarrow> IncrementalQuinTree \<Rightarrow> 'lj list \<Rightarrow> error + IncrementalQuinTree" where
  "reinsert env t [] = Inr t"
| "reinsert env t (j # js) =
     (case leafFromJSON env j of
        Inl e \<Rightarrow> Inl e
      | Inr leaf \<Rightarrow>
          (case insert_leaf t (hashLeaf env leaf) of
             Inl e \<Rightarrow> Inl e
           | Inr t' \<Rightarrow> reinsert env t' js))"

definition fromJSON ::
  "('lj, 'pj) collaborators \<Rightarrow> ('lj, 'pj) IJsonMaciState \<Rightarrow> error + MaciState" where
  "fromJSON env json =
     (case newMaciState env (stateTreeDepthJ json) of
        Inl e \<Rightarrow> Inl e
      | Inr m0 \<Rightarrow>
          (case mapE (leafFromJSON env) (stateLeavesJ json) of
             Inl e \<Rightarrow> Inl e
           | Inr ls \<Rightarrow>
               (let m1 = m0\<lparr>stateLeaves := ls,
                            pollBeingProcessed := Some (pollBeingProcessedJ json),
                            currentPollBeingProcessed :=
                              Some (parseInt10 (currentPollBeingProcessedJ json)),
                            numSignUps := numSignUpsJ json\<rparr>
                in case reinsert env (stateTree m1) (drop 1 (stateLeavesJ json)) of
                     Inl e \<Rightarrow> Inl e
                   | Inr t \<Rightarrow>
                       (let m2 = m1\<lparr>stateTree := t\<rparr>
                        in case mapE (\<lambda>jsonPoll. pollFromJSON env jsonPoll m2) (pollsJ json) of
                             Inl e \<Rightarrow> Inl e
                           | Inr ps \<Rightarrow> Inr (m2\<lparr>polls := map Some ps\<rparr>)))))"

section \<open>Sequences of operations\<close>

text \<open>A sequence of calls to \<open>signUp\<close> on one object: the object after the last call and
  what each call returned.\<close>

fun signUps ::
  "('lj, 'pj) collaborators \<Rightarrow> MaciState \<Rightarrow> (PubKey \<times> int \<times> int) list
     \<Rightarrow> MaciState \<times> (error + nat) list" where
  "signUps env s [] = (s, [])"
| "signUps env s ((pk, balance, ts) # xs) =
     (case signUp env s pk balance ts of
        (s', r) \<Rightarrow> (case signUps env s' xs of (s'', rs) \<Rightarrow> (s'', r # rs)))"

text \<open>The objects built by the constructor followed by any sequence of \<open>signUp\<close> and
  \<open>deployPoll\<close> calls. The object after a \<open>signUp\<close> that threw is one of them.\<close>

inductive built :: "('lj, 'pj) collaborators \<Rightarrow> MaciState \<Rightarrow> bool" for env where
  built_new: "newMaciState env d = Inr s \<Longrightarrow> built env s"
| built_signUp: "built env s \<Longrightarrow> built env (fst (signUp env s pk balance ts))"
| built_deployPoll:
    "built env s \<Longrightarrow> built env (fst (deployPoll env s endTs maxVals tds msgBatchSize kp))"

text \<open>The reachable objects: those of the constructor, \<open>signUp\<close>, \<open>deployPoll\<close>,
  \<open>deployNullPoll\<close>, an assignment of any boolean and any number of the model to the two
  public bookkeeping fields (made by the poll that is being processed, through its
  back-reference), and \<open>fromJSON\<close> of the
  serialization of a reachable object. The result of \<open>copy\<close> is not among the
  generators: it carries the accumulator and the counter of the constructor, not those
  of the object copied.\<close>

inductive reachable :: "('lj, 'pj) collaborators \<Rightarrow> MaciState \<Rightarrow> bool" for env where
  reach_new: "newMaciState env d = Inr s \<Longrightarrow> reachable env s"
| reach_signUp: "reachable env s \<Longrightarrow> reachable env (fst (signUp env s pk balance ts))"
| reach_deployPoll:
    "reachable env s \<Longrightarrow> reachable env (fst (deployPoll env s endTs maxVals tds msgBatchSize kp))"
| reach_deployNullPoll: "reachable env s \<Longrightarrow> reachable env (deployNullPoll s)"
| reach_processing:
    "reachable env s \<Longrightarrow> safeNumber c \<Longrightarrow>
     reachable env (s\<lparr>pollBeingProcessed := b, currentPollBeingProcessed := c\<rparr>)"
| reach_fromJSON:
    "reachable env s \<Longrightarrow> toJSON env s = Inr r \<Longrightarrow> fromJSON env r = Inr s' \<Longrightarrow> reachable env s'"

text \<open>The contract of the two JSON codecs, whose code is outside \<open>src/\<close>: decoding an
  encoded leaf or poll gives it back.\<close>

definition codecsRoundTrip :: "('lj, 'pj) collaborators \<Rightarrow> bool" where
  "codecsRoundTrip env =
     ((\<forall>l. leafFromJSON env (leafToJSON env l) = Inr l)
      \<and> (\<forall>p m. pollFromJSON env (pollToJSON env p) m = Inr p))"

text \<open>A concrete choice of the parameters, for evaluating the model on concrete inputs:
  arity five, the all-zero blank leaf, a linear stand-in for the hash, and codecs that
  serialize a leaf and a poll as themselves.\<close>

definition sampleHash :: "StateLeaf \<Rightarrow> int" where
  "sampleHash l =
     7 + fst (pubKey l) + 2 * snd (pubKey l) + 3 * voiceCreditBalance l + 5 * timestamp l"

definition sampleEnv :: "(StateLeaf, Poll) collaborators" where
  "sampleEnv =
     \<lparr>STATE_TREE_ARITY = 5,
      blankStateLeaf = newStateLeaf (0, 0) 0 0,
      blankStateLeafHash = 7,
      hashLeaf = sampleHash,
      leafToJSON = (\<lambda>l. l),
      leafFromJSON = Inr,
      pollToJSON = (\<lambda>p. p),
      pollFromJSON = (\<lambda>p m. Inr p)\<rparr>"

section \<open>The proof generator service\<close>

text \<open>\<open>ProofGeneratorService.generate\<close> is a sequence of calls to collaborators (the
  contracts, the file and crypto services, the proof generator of \<open>maci-contracts\<close>),
  each of which may throw. The model runs the sequence against a \<open>world\<close>, the answers
  the collaborators give during one invocation, and returns the calls made, in order,
  with the result or the exception.\<close>

datatype EContracts = MACI | PollContract | AccQueue

datatype call =
    CallGetContract EContracts
  | CallGetDeployer
  | CallPolls
  | CallExtContracts
  | CallCoordinatorPubKey
  | CallStateMerged
  | CallTreeDepths
  | CallGetMainRoot
  | CallGetPrivateKey
  | CallDecrypt
  | CallPrivKeyDeserialize
  | CallPrepareState
  | CallGetZkeyFilePaths
  | CallGenerateMpProofs
  | CallGenerateTallyProofs
  | CallLoggerError error

record IGenerateArgs =
  poll :: nat
  maciContractAddress :: string
  tallyContractAddress :: string
  useQuadraticVoting :: bool
  encryptedCoordinatorPrivateKey :: string
  startBlock :: "nat option"
  endBlock :: "nat option"
  blocksPerBatch :: "nat option"

record IGenerateData =
  processProofs :: "string list"
  tallyProofs :: "string list"
  tallyData :: string

record PrepareStateArgs =
  psMaciContract :: string
  psPollContract :: string
  psMessageAq :: string
  psMaciPrivateKey :: int
  psCoordinatorKeypair :: Keypair
  psPollId :: nat
  psSigner :: string
  psStartBlock :: "nat option"
  psEndBlock :: "nat option"
  psBlocksPerBatch :: "nat option"

record ProofGeneratorArgs =
  pgPoll :: Poll
  pgMaciContractAddress :: string
  pgTallyContractAddress :: string
  pgTally :: "string \<times> string"
  pgMp :: "string \<times> string"
  pgRapidsnark :: "string option"
  pgOutputDir :: string
  pgTallyOutputFile :: string
  pgUseQuadraticVoting :: bool

record world =
  w_getContract :: "EContracts \<Rightarrow> string \<Rightarrow> error + string"
  w_getDeployer :: "error + string"
  w_polls :: "string \<Rightarrow> nat \<Rightarrow> error + string"
  w_extContracts :: "string \<Rightarrow> error + string"
  w_coordinatorPubKey :: "string \<Rightarrow> error + (int \<times> int)"
  w_stateMerged :: "string \<Rightarrow> error + bool"
  w_treeDepths :: "string \<Rightarrow> error + (nat \<times> nat \<times> nat \<times> nat)"
  w_getMainRoot :: "string \<Rightarrow> string \<Rightarrow> error + int"
  w_getPrivateKey :: "error + string"
  w_decrypt :: "string \<Rightarrow> string \<Rightarrow> error + string"
  w_privKeyDeserialize :: "string \<Rightarrow> error + int"
  w_genPubKey :: "int \<Rightarrow> PubKey"
  w_prepareState :: "PrepareStateArgs \<Rightarrow> error + (int \<Rightarrow> Poll option)"
  w_getZkeyFilePaths :: "string option \<Rightarrow> bool \<Rightarrow> error + (string \<times> string)"
  w_generateMpProofs :: "ProofGeneratorArgs \<Rightarrow> error + string list"
  w_generateTallyProofs :: "ProofGeneratorArgs \<Rightarrow> string \<Rightarrow> error + (string list \<times> string)"
  w_processEnv :: "string \<Rightarrow> string option"
  w_pathResolve :: "string \<Rightarrow> string"
  w_network :: string

text \<open>\<open>ZeroAddress\<close> of \<open>ethers\<close> and \<open>String.prototype.toLowerCase\<close> on ASCII.\<close>

definition ZeroAddress :: string where
  "ZeroAddress = ''0x'' @ replicate 40 (CHR ''0'')"

definition lowerChar :: "char \<Rightarrow> char" where
  "lowerChar c =
     (if 65 \<le> (of_char c :: nat) \<and> (of_char c :: nat) \<le> 90 then char_of ((of_char c :: nat) + 32)
      else c)"

definition toLowerCase :: "string \<Rightarrow> string" where
  "toLowerCase s = map lowerChar s"

text \<open>One awaited call: it is recorded, and its exception ends the invocation.\<close>

definition ext ::
  "call \<Rightarrow> error + 'a \<Rightarrow> ('a \<Rightarrow> call list \<times> (error + 'b)) \<Rightarrow> call list \<times> (error + 'b)" where
  "ext c r k =
     (case r of
        Inl e \<Rightarrow> ([c], Inl e)
      | Inr v \<Rightarrow> (case k v of (tr, out) \<Rightarrow> (c # tr, out)))"

text \<open>\<open>Promise.all\<close> of two calls: both are made; the first exception in the order of
  the array is the one raised.\<close>

definition ext2 ::
  "call \<Rightarrow> error + 'a \<Rightarrow> call \<Rightarrow> error + 'c \<Rightarrow> ('a \<Rightarrow> 'c \<Rightarrow> call list \<times> (error + 'b))
     \<Rightarrow> call list \<times> (error + 'b)" where
  "ext2 c1 r1 c2 r2 k =
     (case r1 of
        Inl e \<Rightarrow> ([c1, c2], Inl e)
      | Inr v1 \<Rightarrow>
          (case r2 of
             Inl e \<Rightarrow> ([c1, c2], Inl e)
           | Inr v2 \<Rightarrow> (case k v1 v2 of (tr, out) \<Rightarrow> (c1 # c2 # tr, out))))"

text \<open>\<open>this.logger.error(...); throw new Error(code)\<close>.\<close>

definition logThrow :: "error \<Rightarrow> call list \<times> (error + 'b)" where
  "logThrow e = ([CallLoggerError e], Inl e)"

definition generate :: "world \<Rightarrow> IGenerateArgs \<Rightarrow> call list \<times> (error + IGenerateData)" where
  "generate w a =
     ext (CallGetContract MACI) (w_getContract w MACI (maciContractAddress a)) (\<lambda>maciContract.
     ext CallGetDeployer (w_getDeployer w) (\<lambda>signer.
     ext CallPolls (w_polls w maciContract (poll a)) (\<lambda>pollAddress.
     if toLowerCase pollAddress = toLowerCase ZeroAddress then logThrow POLL_NOT_FOUND
     else
     ext (CallGetContract PollContract) (w_getContract w PollContract pollAddress) (\<lambda>pollContract.
     ext2 CallExtContracts (w_extContracts w pollContract)
          CallCoordinatorPubKey (w_coordinatorPubKey w pollContract)
          (\<lambda>messageAqAddress coordinatorPublicKey.
     ext (CallGetContract AccQueue) (w_getContract w AccQueue messageAqAddress) (\<lambda>messageAq.
     ext CallStateMerged (w_stateMerged w pollContract) (\<lambda>isStateAqMerged.
     if \<not> isStateAqMerged then logThrow NOT_MERGED_STATE_TREE
     else
     ext CallTreeDepths (w_treeDepths w pollContract) (\<lambda>depths.
     (let messageTreeDepth = fst (snd (snd depths)) in
     ext CallGetMainRoot (w_getMainRoot w messageAq (numToString (int messageTreeDepth))) (\<lambda>mainRoot.
     if numToString mainRoot = ''0'' then logThrow NOT_MERGED_MESSAGE_TREE
     else
     ext CallGetPrivateKey (w_getPrivateKey w) (\<lambda>privateKey.
     ext CallDecrypt (w_decrypt w privateKey (encryptedCoordinatorPrivateKey a)) (\<lambda>plain.
     ext CallPrivKeyDeserialize (w_privKeyDeserialize w plain) (\<lambda>maciPrivateKey.
     (let coordinatorKeypair = \<lparr>kpPrivKey = maciPrivateKey, kpPubKey = w_genPubKey w maciPrivateKey\<rparr>;
          publicKey = (fst coordinatorPublicKey, snd coordinatorPublicKey) in
     if \<not> (kpPubKey coordinatorKeypair = publicKey) then logThrow PRIVATE_KEY_MISMATCH
     else
     ext CallPrepareState
         (w_prepareState w
            \<lparr>psMaciContract = maciContract, psPollContract = pollContract,
             psMessageAq = messageAq, psMaciPrivateKey = maciPrivateKey,
             psCoordinatorKeypair = coordinatorKeypair, psPollId = poll a, psSigner = signer,
             psStartBlock = startBlock a, psEndBlock = endBlock a,
             psBlocksPerBatch = blocksPerBatch a\<rparr>) (\<lambda>maciStatePolls.
     (case maciStatePolls (int (poll a)) of
        None \<Rightarrow> logThrow POLL_NOT_FOUND
      | Some foundPoll \<Rightarrow>
     ext CallGetZkeyFilePaths
         (w_getZkeyFilePaths w (w_processEnv w ''COORDINATOR_TALLY_ZKEY_NAME'') (useQuadraticVoting a))
         (\<lambda>tally.
     ext CallGetZkeyFilePaths
         (w_getZkeyFilePaths w (w_processEnv w ''COORDINATOR_MESSAGE_PROCESS_ZKEY_NAME'')
            (useQuadraticVoting a))
         (\<lambda>mp.
     (let proofGenerator =
            \<lparr>pgPoll = foundPoll, pgMaciContractAddress = maciContractAddress a,
             pgTallyContractAddress = tallyContractAddress a, pgTally = tally, pgMp = mp,
             pgRapidsnark = w_processEnv w ''COORDINATOR_RAPIDSNARK_EXE'',
             pgOutputDir = w_pathResolve w ''./proofs'',
             pgTallyOutputFile = w_pathResolve w ''./tally.json'',
             pgUseQuadraticVoting = useQuadraticVoting a\<rparr> in
     ext CallGenerateMpProofs (w_generateMpProofs w proofGenerator) (\<lambda>procProofs.
     ext CallGenerateTallyProofs (w_generateTallyProofs w proofGenerator (w_network w)) (\<lambda>tallyOut.
     ([], Inr \<lparr>processProofs = procProofs, tallyProofs = fst tallyOut,
               tallyData = snd tallyOut\<rparr>))))))))))))))))))))))"

section \<open>Sample inputs\<close>

text \<open>Concrete inputs on which the model is evaluated: a poll, and a world in which every
  collaborator answers, the state tree and the message tree are merged, and the decrypted
  private key derives a public key other than the committed one.\<close>

definition samplePoll :: Poll where
  "samplePoll =
     \<lparr>pollEndTimestamp = 1000,
      coordinatorKeypair = \<lparr>kpPrivKey = 11, kpPubKey = (3, 4)\<rparr>,
      treeDepths = \<lparr>intStateTreeDepth = 1, messageTreeDepth = 2, voteOptionTreeDepth = 2\<rparr>,
      batchSizes = \<lparr>messageBatchSize = 5, subsidyBatchSize = 5, tallyBatchSize = 5\<rparr>,
      maxValues = \<lparr>maxMessages = 25, maxVoteOptions = 25\<rparr>\<rparr>"

text \<open>The object the constructor returns for \<open>sampleEnv\<close> at depth \<open>d\<close>, and three
  sign-ups.\<close>

definition sampleFresh :: "nat \<Rightarrow> MaciState" where
  "sampleFresh d =
     \<lparr>polls = [],
      stateTree = \<lparr>depth = d, zeroValue = 7, arity = 5, leaves = [7]\<rparr>,
      stateLeaves = [newStateLeaf (0, 0) 0 0],
      stateTreeDepth = d, numSignUps = 1,
      pollBeingProcessed = None, currentPollBeingProcessed = None\<rparr>"

definition sampleVoters :: "(PubKey \<times> int \<times> int) list" where
  "sampleVoters = [((1, 2), 100, 1), ((3, 4), 100, 2), ((5, 6), 100, 3)]"

text \<open>The scenario of the spec: depth four, three sign-ups with balance 100 and timestamps
  1, 2, 3, then one poll with message batch size five and intermediate depth one.\<close>

definition sampleState :: MaciState where
  "sampleState =
     fst (deployPoll sampleEnv (fst (signUps sampleEnv (sampleFresh 4) sampleVoters)) 1000
            \<lparr>maxMessages = 25, maxVoteOptions = 25\<rparr>
            \<lparr>intStateTreeDepth = 1, messageTreeDepth = 2, voteOptionTreeDepth = 2\<rparr>
            5 \<lparr>kpPrivKey = 11, kpPubKey = (3, 4)\<rparr>)"

text \<open>Two serialized records: that of the fresh object of depth one, and one whose only
  leaf is not the blank leaf.\<close>

definition freshRecord :: "(StateLeaf, Poll) IJsonMaciState" where
  "freshRecord =
     \<lparr>stateTreeDepthJ = 1, pollsJ = [], stateLeavesJ = [newStateLeaf (0, 0) 0 0],
      pollBeingProcessedJ = False, currentPollBeingProcessedJ = [], numSignUpsJ = 1\<rparr>"

definition tamperedRecord :: "(StateLeaf, Poll) IJsonMaciState" where
  "tamperedRecord =
     \<lparr>stateTreeDepthJ = 1, pollsJ = [], stateLeavesJ = [newStateLeaf (1, 2) 100 1],
      pollBeingProcessedJ = False, currentPollBeingProcessedJ = [], numSignUpsJ = 1\<rparr>"

definition sampleWorld :: world where
  "sampleWorld =
     \<lparr>w_getContract = (\<lambda>c a. Inr a),
      w_getDeployer = Inr ''0xd1'',
      w_polls = (\<lambda>m i. Inr ''0xA1''),
      w_extContracts = (\<lambda>p. Inr ''0xB2''),
      w_coordinatorPubKey = (\<lambda>p. Inr (3, 4)),
      w_stateMerged = (\<lambda>p. Inr True),
      w_treeDepths = (\<lambda>p. Inr (1, 1, 2, 2)),
      w_getMainRoot = (\<lambda>q d. Inr 99),
      w_getPrivateKey = Inr ''rsa'',
      w_decrypt = (\<lambda>k c. Inr ''sk11''),
      w_privKeyDeserialize = (\<lambda>t. Inr 11),
      w_genPubKey = (\<lambda>sk. (sk, sk + 1)),
      w_prepareState = (\<lambda>args. Inr (\<lambda>i. if i = 0 then Some samplePoll else None)),
      w_getZkeyFilePaths = (\<lambda>n q. Inr (''zkey'', ''wasm'')),
      w_generateMpProofs = (\<lambda>g. Inr [''mp'']),
      w_generateTallyProofs = (\<lambda>g n. Inr ([''tally''], ''data'')),
      w_processEnv = (\<lambda>v. None),
      w_pathResolve = (\<lambda>p. p),
      w_network = ''localhost''\<rparr>"

definition sampleArgs :: IGenerateArgs where
  "sampleArgs =
     \<lparr>poll = 0, maciContractAddress = ''0xM0'', tallyContractAddress = ''0xT0'',
      useQuadraticVoting = True, encryptedCoordinatorPrivateKey = ''cipher'',
      startBlock = None, endBlock = None, blocksPerBatch = None\<rparr>"

section \<open>Decimal text of integers\<close>











section \<open>The accumulator, the constructor and the loops\<close>

lemma insert_leaf_Inr_iff:
  "insert_leaf t v = Inr t' \<longleftrightarrow> length (leaves t) < capacity t \<and> t' = t\<lparr>leaves := leaves t @ [v]\<rparr>"
  by (auto simp add: insert_leaf_def)

lemma insert_leaf_Inl_iff:
  "insert_leaf t v = Inl e \<longleftrightarrow> capacity t \<le> length (leaves t) \<and> e = CapacityExceeded"
  by (auto simp add: insert_leaf_def)

lemma newMaciState_Inr_iff:
  "newMaciState env d = Inr s \<longleftrightarrow>
     0 < STATE_TREE_ARITY env ^ d \<and>
     s = \<lparr>polls = [],
          stateTree = \<lparr>depth = d, zeroValue = blankStateLeafHash env,
                       arity = STATE_TREE_ARITY env, leaves = [blankStateLeafHash env]\<rparr>,
          stateLeaves = [blankStateLeaf env], stateTreeDepth = d, numSignUps = 1,
          pollBeingProcessed = None, currentPollBeingProcessed = None\<rparr>"
  by (auto simp add: newMaciState_def insert_leaf_def newTree_def capacity_def)

lemma signUp_full:
  assumes "capacity (stateTree s) \<le> length (leaves (stateTree s))"
  shows "signUp env s pk b ts = (s\<lparr>numSignUps := numSignUps s + 1\<rparr>, Inl CapacityExceeded)"
  using assms by (simp add: signUp_def insert_leaf_def Let_def)

lemma signUp_room:
  assumes "length (leaves (stateTree s)) < capacity (stateTree s)"
  shows "signUp env s pk b ts =
           (s\<lparr>numSignUps := numSignUps s + 1,
              stateTree := (stateTree s)\<lparr>leaves := leaves (stateTree s) @ [hashLeaf env (newStateLeaf pk b ts)]\<rparr>,
              stateLeaves := stateLeaves s @ [newStateLeaf pk b ts]\<rparr>,
            Inr (length (stateLeaves s)))"
  using assms by (simp add: signUp_def insert_leaf_def Let_def)

lemma pollsLoop_all:
  assumes "length ps = length qs"
    and "\<forall>i<length ps. pollEquals (ps ! i) (qs ! i) = Inr True"
  shows "pollsLoop ps qs = Inr True"
  using assms
proof (induction ps qs rule: list_induct2)
  case Nil
  then show ?case by simp
next
  case (Cons p ps q qs)
  from Cons.prems have h: "pollEquals p q = Inr True" by force
  from Cons.prems have "\<forall>i<length ps. pollEquals (ps ! i) (qs ! i) = Inr True" by force
  with Cons.IH h show ?case by simp
qed

lemma leavesLoop_all:
  assumes "length xs = length ys"
    and "\<forall>i<length xs. xs ! i = ys ! i"
  shows "leavesLoop xs ys"
  using assms
proof (induction xs ys rule: list_induct2)
  case Nil
  then show ?case by simp
next
  case (Cons x xs y ys)
  from Cons.prems have h: "x = y" by force
  from Cons.prems have "\<forall>i<length xs. xs ! i = ys ! i" by force
  with Cons.IH h show ?case by simp
qed

lemma mapE_length: "mapE f xs = Inr ys \<Longrightarrow> length ys = length xs"
  by (induction xs arbitrary: ys) (auto split: sum.splits)

lemma mapE_encoded: "\<forall>x. f (g x) = Inr x \<Longrightarrow> mapE f (map g xs) = Inr xs"
  by (induction xs) auto

lemma mapE_onPoll_Some: "mapE (onPoll f) (map Some ps) = Inr (map f ps)"
  by (induction ps) (auto simp add: onPoll_def)

lemma mapE_onPoll_Inr: "mapE (onPoll f) xs = Inr ys \<Longrightarrow> None \<notin> set xs"
  by (induction xs arbitrary: ys) (auto simp add: onPoll_def split: sum.splits option.splits)

lemma no_null_map_Some: "None \<notin> set xs \<Longrightarrow> \<exists>ps. xs = map Some ps"
proof (induction xs)
  case Nil
  then show ?case by simp
next
  case (Cons x xs)
  then obtain ps where "xs = map Some ps" by auto
  moreover from Cons.prems obtain p where "x = Some p" by (cases x) auto
  ultimately have "x # xs = map Some (p # ps)" by simp
  then show ?case by (rule exI [of _ "p # ps"])
qed

lemma reinsert_Inr:
  "reinsert env t js = Inr t' \<Longrightarrow> length (leaves t) \<le> capacity t \<Longrightarrow>
     depth t' = depth t \<and> arity t' = arity t \<and> zeroValue t' = zeroValue t
     \<and> length (leaves t') = length (leaves t) + length js
     \<and> length (leaves t') \<le> capacity t'
     \<and> (leaves t \<noteq> [] \<longrightarrow> leaves t' \<noteq> [] \<and> hd (leaves t') = hd (leaves t))"
proof (induction js arbitrary: t)
  case Nil
  then show ?case by simp
next
  case (Cons j js)
  from Cons.prems obtain leaf t1 where
    l: "leafFromJSON env j = Inr leaf" and
    i: "insert_leaf t (hashLeaf env leaf) = Inr t1" and
    r: "reinsert env t1 js = Inr t'"
    by (auto split: sum.splits)
  from i have t1: "length (leaves t) < capacity t" "t1 = t\<lparr>leaves := leaves t @ [hashLeaf env leaf]\<rparr>"
    by (simp_all add: insert_leaf_Inr_iff)
  then have "length (leaves t1) \<le> capacity t1" by (simp add: capacity_def)
  from Cons.IH [OF r this] t1 show ?case
    by (auto simp add: capacity_def)
qed

lemma reinsert_encoded:
  assumes "\<forall>l. leafFromJSON env (leafToJSON env l) = Inr l"
    and "length (leaves t) + length ls \<le> capacity t"
  shows "reinsert env t (map (leafToJSON env) ls) = Inr (t\<lparr>leaves := leaves t @ map (hashLeaf env) ls\<rparr>)"
  using assms(2)
proof (induction ls arbitrary: t)
  case Nil
  then show ?case by simp
next
  case (Cons l ls)
  let ?t1 = "t\<lparr>leaves := leaves t @ [hashLeaf env l]\<rparr>"
  from Cons.prems have i: "insert_leaf t (hashLeaf env l) = Inr ?t1"
    by (simp add: insert_leaf_def)
  from Cons.prems have "length (leaves ?t1) + length ls \<le> capacity ?t1"
    by (simp add: capacity_def)
  from Cons.IH [OF this] i assms(1) show ?case by simp
qed

lemma fromJSON_Inr:
  assumes "fromJSON env r = Inr s'"
  shows "\<exists>ls t ps.
           0 < STATE_TREE_ARITY env ^ stateTreeDepthJ r
         \<and> mapE (leafFromJSON env) (stateLeavesJ r) = Inr ls
         \<and> reinsert env \<lparr>depth = stateTreeDepthJ r, zeroValue = blankStateLeafHash env,
                          arity = STATE_TREE_ARITY env, leaves = [blankStateLeafHash env]\<rparr>
              (drop 1 (stateLeavesJ r)) = Inr t
         \<and> s' = \<lparr>polls = map Some ps, stateTree = t, stateLeaves = ls,
                 stateTreeDepth = stateTreeDepthJ r, numSignUps = numSignUpsJ r,
                 pollBeingProcessed = Some (pollBeingProcessedJ r),
                 currentPollBeingProcessed = Some (parseInt10 (currentPollBeingProcessedJ r))\<rparr>"
proof -
  from assms obtain m0 where m0: "newMaciState env (stateTreeDepthJ r) = Inr m0"
    by (auto simp add: fromJSON_def split: sum.splits)
  from assms m0 obtain ls where ls: "mapE (leafFromJSON env) (stateLeavesJ r) = Inr ls"
    by (auto simp add: fromJSON_def split: sum.splits)
  from assms m0 ls obtain t where t: "reinsert env (stateTree m0) (drop 1 (stateLeavesJ r)) = Inr t"
    by (auto simp add: fromJSON_def Let_def split: sum.splits)
  from assms m0 ls t obtain ps where
    s': "s' = m0\<lparr>stateLeaves := ls, pollBeingProcessed := Some (pollBeingProcessedJ r),
               currentPollBeingProcessed := Some (parseInt10 (currentPollBeingProcessedJ r)),
               numSignUps := numSignUpsJ r, stateTree := t, polls := map Some ps\<rparr>"
    by (auto simp add: fromJSON_def Let_def split: sum.splits)
  from m0 t s' ls show ?thesis
    by (auto simp add: newMaciState_Inr_iff)
qed

lemma toJSON_Some:
  assumes "polls s = map Some ps"
  shows "toJSON env s =
           Inr \<lparr>stateTreeDepthJ = stateTreeDepth s, pollsJ = map (pollToJSON env) ps,
                stateLeavesJ = map (leafToJSON env) (stateLeaves s),
                pollBeingProcessedJ = (pollBeingProcessed s = Some True),
                currentPollBeingProcessedJ =
                  (if truthy (currentPollBeingProcessed s)
                   then (case currentPollBeingProcessed s of Some (Num n) \<Rightarrow> numToString n | _ \<Rightarrow> [])
                   else []),
                numSignUpsJ = numSignUps s\<rparr>"
  using assms by (simp add: toJSON_def mapE_onPoll_Some)


lemma toJSON_fields:
  "toJSON env s = Inr r \<Longrightarrow>
     stateTreeDepthJ r = stateTreeDepth s \<and> stateLeavesJ r = map (leafToJSON env) (stateLeaves s)
     \<and> numSignUpsJ r = numSignUps s"
  by (auto simp add: toJSON_def split: sum.splits)

lemma reachable_tree:
  "reachable env s \<Longrightarrow>
     depth (stateTree s) = stateTreeDepth s \<and> arity (stateTree s) = STATE_TREE_ARITY env
     \<and> length (stateLeaves s) \<le> length (leaves (stateTree s))
     \<and> length (leaves (stateTree s)) \<le> capacity (stateTree s)
     \<and> leaves (stateTree s) \<noteq> [] \<and> hd (leaves (stateTree s)) = blankStateLeafHash env"
proof (induction rule: reachable.induct)
  case (reach_new d s)
  then show ?case by (auto simp add: newMaciState_Inr_iff capacity_def)
next
  case (reach_signUp s pk balance ts)
  then show ?case by (auto simp add: signUp_def Let_def insert_leaf_def capacity_def)
next
  case (reach_deployPoll s endTs maxVals tds msgBatchSize kp)
  then show ?case by (auto simp add: deployPoll_def Let_def capacity_def)
next
  case (reach_deployNullPoll s)
  then show ?case by (auto simp add: deployNullPoll_def capacity_def)
next
  case (reach_processing s b c)
  then show ?case by (auto simp add: capacity_def)
next
  case (reach_fromJSON s r s')
  from fromJSON_Inr [OF reach_fromJSON(3)] obtain ls t ps where
    ls: "mapE (leafFromJSON env) (stateLeavesJ r) = Inr ls" and
    t: "reinsert env \<lparr>depth = stateTreeDepthJ r, zeroValue = blankStateLeafHash env,
                      arity = STATE_TREE_ARITY env, leaves = [blankStateLeafHash env]\<rparr>
              (drop 1 (stateLeavesJ r)) = Inr t" and
    pos: "0 < STATE_TREE_ARITY env ^ stateTreeDepthJ r" and
    s': "s' = \<lparr>polls = map Some ps, stateTree = t, stateLeaves = ls,
              stateTreeDepth = stateTreeDepthJ r, numSignUps = numSignUpsJ r,
              pollBeingProcessed = Some (pollBeingProcessedJ r),
              currentPollBeingProcessed = Some (parseInt10 (currentPollBeingProcessedJ r))\<rparr>"
    by blast
  from mapE_length [OF ls] have len: "length ls = length (stateLeavesJ r)" .
  have "length (leaves \<lparr>depth = stateTreeDepthJ r, zeroValue = blankStateLeafHash env,
                      arity = STATE_TREE_ARITY env, leaves = [blankStateLeafHash env]\<rparr>)
          \<le> capacity \<lparr>depth = stateTreeDepthJ r, zeroValue = blankStateLeafHash env,
                      arity = STATE_TREE_ARITY env, leaves = [blankStateLeafHash env]\<rparr>"
    using pos by (simp add: capacity_def Suc_le_eq)
  from reinsert_Inr [OF t this] len s' show ?case
    by (auto simp add: capacity_def)
qed


lemma built_reachable: "built env s \<Longrightarrow> reachable env s"
  by (induction rule: built.induct) (auto intro: reachable.intros)

lemma built_no_null: "built env s \<Longrightarrow> None \<notin> set (polls s)"
proof (induction rule: built.induct)
  case (built_new d s)
  then show ?case by (simp add: newMaciState_Inr_iff)
next
  case (built_signUp s pk balance ts)
  then show ?case by (auto simp add: signUp_def Let_def split: sum.splits)
next
  case (built_deployPoll s endTs maxVals tds msgBatchSize kp)
  then show ?case by (simp add: deployPoll_def Let_def)
qed

lemma fromJSON_toJSON:
  assumes rt: "codecsRoundTrip env"
    and ps: "polls s = map Some ps"
    and fit: "length (stateLeaves s) \<le> STATE_TREE_ARITY env ^ stateTreeDepth s"
    and pos: "0 < STATE_TREE_ARITY env ^ stateTreeDepth s"
    and r: "toJSON env s = Inr r"
  shows "fromJSON env r =
           Inr (s\<lparr>stateTree := \<lparr>depth = stateTreeDepth s, zeroValue = blankStateLeafHash env,
                                 arity = STATE_TREE_ARITY env,
                                 leaves = blankStateLeafHash env
                                          # map (hashLeaf env) (drop 1 (stateLeaves s))\<rparr>,
                  pollBeingProcessed := Some (pollBeingProcessedJ r),
                  currentPollBeingProcessed := Some (parseInt10 (currentPollBeingProcessedJ r))\<rparr>)"
proof -
  let ?d = "stateTreeDepth s"
  let ?t0 = "\<lparr>depth = ?d, zeroValue = blankStateLeafHash env,
              arity = STATE_TREE_ARITY env, leaves = [blankStateLeafHash env]\<rparr>"
  from rt have lc: "\<forall>l. leafFromJSON env (leafToJSON env l) = Inr l"
    and pc: "\<forall>p m. pollFromJSON env (pollToJSON env p) m = Inr p"
    by (simp_all add: codecsRoundTrip_def)
  from r toJSON_Some [OF ps, of env] have rd: "stateTreeDepthJ r = ?d"
    and rl: "stateLeavesJ r = map (leafToJSON env) (stateLeaves s)"
    and rp: "pollsJ r = map (pollToJSON env) ps"
    and rn: "numSignUpsJ r = numSignUps s"
    by auto
  from pos obtain m0 where m0: "newMaciState env ?d = Inr m0"
    and m0': "m0 = \<lparr>polls = [], stateTree = ?t0, stateLeaves = [blankStateLeaf env],
                    stateTreeDepth = ?d, numSignUps = 1,
                    pollBeingProcessed = None, currentPollBeingProcessed = None\<rparr>"
    by (simp add: newMaciState_Inr_iff)
  have dec: "mapE (leafFromJSON env) (stateLeavesJ r) = Inr (stateLeaves s)"
    unfolding rl using lc by (rule mapE_encoded)
  have "Suc 0 + (length (stateLeaves s) - 1) \<le> STATE_TREE_ARITY env ^ ?d"
    using fit pos by linarith
  then have "length (leaves ?t0) + length (drop 1 (stateLeaves s)) \<le> capacity ?t0"
    by (simp add: capacity_def)
  from reinsert_encoded [OF lc this]
  have re: "reinsert env ?t0 (drop 1 (stateLeavesJ r)) =
              Inr (?t0\<lparr>leaves := leaves ?t0 @ map (hashLeaf env) (drop 1 (stateLeaves s))\<rparr>)"
    by (simp add: rl drop_map)
  have pd: "\<And>m. mapE (\<lambda>j. pollFromJSON env j m) (pollsJ r) = Inr ps"
    unfolding rp using pc by (intro mapE_encoded) simp
  show ?thesis
    unfolding fromJSON_def rd m0
    by (simp add: dec Let_def m0' re pd ps rn del: One_nat_def)
qed

lemma pollsLoop_refl: "pollsLoop (map Some ps) (map Some ps) = Inr True"
  by (induction ps) (simp_all add: pollEquals_def)

lemma leavesLoop_refl: "leavesLoop xs xs"
  by (induction xs) simp_all

lemma parseInt10_empty: "parseInt10 [] = NaN"
  by (simp add: parseInt10_def stripSign_def)




section \<open>Invariants of the reachable objects\<close>

lemma reachable_blank:
  assumes "codecsRoundTrip env"
  shows "reachable env s \<Longrightarrow> stateLeaves s \<noteq> [] \<and> hd (stateLeaves s) = blankStateLeaf env"
proof (induction rule: reachable.induct)
  case (reach_new d s)
  then show ?case by (simp add: newMaciState_Inr_iff)
next
  case (reach_signUp s pk balance ts)
  then show ?case by (auto simp add: signUp_def Let_def split: sum.splits)
next
  case (reach_deployPoll s endTs maxVals tds msgBatchSize kp)
  then show ?case by (simp add: deployPoll_def Let_def)
next
  case (reach_deployNullPoll s)
  then show ?case by (simp add: deployNullPoll_def)
next
  case (reach_processing s b c)
  then show ?case by simp
next
  case (reach_fromJSON s r s')
  from assms have lc: "\<forall>l. leafFromJSON env (leafToJSON env l) = Inr l"
    by (simp add: codecsRoundTrip_def)
  from toJSON_fields [OF reach_fromJSON(2)]
  have rl: "stateLeavesJ r = map (leafToJSON env) (stateLeaves s)" by simp
  have dec: "mapE (leafFromJSON env) (stateLeavesJ r) = Inr (stateLeaves s)"
    unfolding rl using lc by (rule mapE_encoded)
  from fromJSON_Inr [OF reach_fromJSON(3)] dec have "stateLeaves s' = stateLeaves s"
    by auto
  with reach_fromJSON.IH show ?case by simp
qed

lemma reachable_fits:
  assumes "reachable env s"
  shows "length (stateLeaves s) \<le> STATE_TREE_ARITY env ^ stateTreeDepth s"
    and "0 < STATE_TREE_ARITY env ^ stateTreeDepth s"
proof -
  from reachable_tree [OF assms]
  have d: "depth (stateTree s) = stateTreeDepth s"
    and a: "arity (stateTree s) = STATE_TREE_ARITY env"
    and l: "length (stateLeaves s) \<le> length (leaves (stateTree s))"
    and k: "length (leaves (stateTree s)) \<le> capacity (stateTree s)"
    and n: "leaves (stateTree s) \<noteq> []"
    by blast+
  from d a have c: "capacity (stateTree s) = STATE_TREE_ARITY env ^ stateTreeDepth s"
    by (simp add: capacity_def)
  from l k c show "length (stateLeaves s) \<le> STATE_TREE_ARITY env ^ stateTreeDepth s"
    by linarith
  from n have "0 < length (leaves (stateTree s))" by simp
  with k c show "0 < STATE_TREE_ARITY env ^ stateTreeDepth s"
    by linarith
qed




lemma copy_Inr:
  assumes "copy env s = Inr c"
  shows "stateLeaves c = stateLeaves s \<and> polls c = polls s
       \<and> stateTreeDepth c = stateTreeDepth s
       \<and> leaves (stateTree c) = [blankStateLeafHash env] \<and> numSignUps c = 1"
proof -
  from assms obtain copied ps where
    n: "newMaciState env (stateTreeDepth s) = Inr copied" and
    m: "mapE (onPoll (\<lambda>x. Some x)) (polls s) = Inr ps" and
    c: "c = copied\<lparr>stateLeaves := stateLeaves s, polls := ps\<rparr>"
    by (auto simp add: copy_def Let_def split: sum.splits)
  from mapE_onPoll_Inr [OF m] obtain qs where qs: "polls s = map Some qs"
    using no_null_map_Some by blast
  with m have "ps = polls s" by (simp add: mapE_onPoll_Some)
  with n c show ?thesis by (simp add: newMaciState_Inr_iff)
qed

lemma counter_invariant_other_operations:
  "newMaciState env d = Inr s0 \<Longrightarrow> length (stateLeaves s0) = numSignUps s0"
  "length (stateLeaves s) = numSignUps s \<Longrightarrow> signUp env s pk balance ts = (s1, Inr i) \<Longrightarrow>
     length (stateLeaves s1) = numSignUps s1"
  "length (stateLeaves s) = numSignUps s \<Longrightarrow>
     length (stateLeaves (fst (deployPoll env s endTs maxVals tds msgBatchSize kp)))
       = numSignUps (fst (deployPoll env s endTs maxVals tds msgBatchSize kp))"
  "length (stateLeaves s) = numSignUps s \<Longrightarrow>
     length (stateLeaves (deployNullPoll s)) = numSignUps (deployNullPoll s)"
  "length (stateLeaves s) = numSignUps s \<Longrightarrow> toJSON env s = Inr r \<Longrightarrow> fromJSON env r = Inr s2 \<Longrightarrow>
     length (stateLeaves s2) = numSignUps s2"
proof -
  show "newMaciState env d = Inr s0 \<Longrightarrow> length (stateLeaves s0) = numSignUps s0"
    by (simp add: newMaciState_Inr_iff)
  show "length (stateLeaves s) = numSignUps s \<Longrightarrow> signUp env s pk balance ts = (s1, Inr i) \<Longrightarrow>
     length (stateLeaves s1) = numSignUps s1"
    by (auto simp add: signUp_def Let_def split: sum.splits)
  show "length (stateLeaves s) = numSignUps s \<Longrightarrow>
     length (stateLeaves (fst (deployPoll env s endTs maxVals tds msgBatchSize kp)))
       = numSignUps (fst (deployPoll env s endTs maxVals tds msgBatchSize kp))"
    by (simp add: deployPoll_def Let_def)
  show "length (stateLeaves s) = numSignUps s \<Longrightarrow>
     length (stateLeaves (deployNullPoll s)) = numSignUps (deployNullPoll s)"
    by (simp add: deployNullPoll_def)
  show "length (stateLeaves s2) = numSignUps s2"
    if inv: "length (stateLeaves s) = numSignUps s" and r: "toJSON env s = Inr r"
      and f: "fromJSON env r = Inr s2"
  proof -
    from fromJSON_Inr [OF f] obtain ls where
      ls: "mapE (leafFromJSON env) (stateLeavesJ r) = Inr ls" and
      sl: "stateLeaves s2 = ls" and sn: "numSignUps s2 = numSignUpsJ r"
      by auto
    from mapE_length [OF ls] toJSON_fields [OF r] inv sl sn show ?thesis by simp
  qed
qed

section \<open>Calls of the proof generator service\<close>

lemma ext_alt:
  "ext c r k = (case r of Inl e \<Rightarrow> ([c], Inl e) | Inr v \<Rightarrow> (c # fst (k v), snd (k v)))"
  by (simp add: ext_def split: sum.splits prod.splits)

lemma ext2_alt:
  "ext2 c1 r1 c2 r2 k =
     (case r1 of
        Inl e \<Rightarrow> ([c1, c2], Inl e)
      | Inr v1 \<Rightarrow>
          (case r2 of
             Inl e \<Rightarrow> ([c1, c2], Inl e)
           | Inr v2 \<Rightarrow> (c1 # c2 # fst (k v1 v2), snd (k v1 v2))))"
  by (simp add: ext2_def split: sum.splits prod.splits)

section \<open>The sample inputs\<close>

lemma sampleFresh_new: "newMaciState sampleEnv d = Inr (sampleFresh d)"
  by (simp add: newMaciState_Inr_iff sampleEnv_def sampleFresh_def)

lemma sampleFresh_reachable: "reachable sampleEnv (sampleFresh d)"
  by (rule reach_new [OF sampleFresh_new])

lemma sampleFresh_built: "built sampleEnv (sampleFresh d)"
  by (rule built_new [OF sampleFresh_new])

lemma sample_codecs: "codecsRoundTrip sampleEnv"
  by (simp add: codecsRoundTrip_def sampleEnv_def)

lemma built_signUps: "built env s \<Longrightarrow> built env (fst (signUps env s xs))"
proof (induction xs arbitrary: s)
  case Nil
  then show ?case by simp
next
  case (Cons x xs)
  obtain pk b ts where x: "x = (pk, b, ts)" by (cases x) auto
  from Cons.prems have "built env (fst (signUp env s pk b ts))" by (rule built_signUp)
  from Cons.IH [OF this] show ?case
    by (cases "signUp env s pk b ts"; cases "signUps env (fst (signUp env s pk b ts)) xs")
       (auto simp add: x)
qed

lemma sampleState_built: "built sampleEnv sampleState"
  unfolding sampleState_def
  by (intro built_deployPoll built_signUps sampleFresh_built)

lemma sample_not_zero: "toLowerCase ''0xA1'' \<noteq> toLowerCase ZeroAddress"
proof
  assume "toLowerCase ''0xA1'' = toLowerCase ZeroAddress"
  then have "length (toLowerCase ''0xA1'') = length (toLowerCase ZeroAddress)" by simp
  then show False by (simp add: toLowerCase_def ZeroAddress_def)
qed

lemma sample_root: "numToString 99 \<noteq> ''0''"
  by (simp add: numToString_def natToString.simps [of 99] natToString.simps [of 9] digitChar_def)

lemma sample_run:
  "generate sampleWorld sampleArgs =
     ([CallGetContract MACI, CallGetDeployer, CallPolls, CallGetContract PollContract,
       CallExtContracts, CallCoordinatorPubKey, CallGetContract AccQueue, CallStateMerged,
       CallTreeDepths, CallGetMainRoot, CallGetPrivateKey, CallDecrypt, CallPrivKeyDeserialize,
       CallLoggerError PRIVATE_KEY_MISMATCH], Inl PRIVATE_KEY_MISMATCH)"
  by (simp add: generate_def sampleWorld_def sampleArgs_def ext_alt ext2_alt logThrow_def
        sample_not_zero sample_root Let_def)

lemma sample_run_unmerged:
  "generate (sampleWorld\<lparr>w_stateMerged := \<lambda>p. Inr False\<rparr>) sampleArgs =
     ([CallGetContract MACI, CallGetDeployer, CallPolls, CallGetContract PollContract,
       CallExtContracts, CallCoordinatorPubKey, CallGetContract AccQueue, CallStateMerged,
       CallLoggerError NOT_MERGED_STATE_TREE], Inl NOT_MERGED_STATE_TREE)"
  by (simp add: generate_def sampleWorld_def sampleArgs_def ext_alt ext2_alt logThrow_def
        sample_not_zero Let_def)

lemma sample_run_matching:
  "generate (sampleWorld\<lparr>w_genPubKey := \<lambda>sk. (3, 4)\<rparr>) sampleArgs =
     ([CallGetContract MACI, CallGetDeployer, CallPolls, CallGetContract PollContract,
       CallExtContracts, CallCoordinatorPubKey, CallGetContract AccQueue, CallStateMerged,
       CallTreeDepths, CallGetMainRoot, CallGetPrivateKey, CallDecrypt, CallPrivKeyDeserialize,
       CallPrepareState, CallGetZkeyFilePaths, CallGetZkeyFilePaths, CallGenerateMpProofs,
       CallGenerateTallyProofs],
      Inr \<lparr>processProofs = [''mp''], tallyProofs = [''tally''], tallyData = ''data''\<rparr>)"
  by (simp add: generate_def sampleWorld_def sampleArgs_def ext_alt ext2_alt logThrow_def
        sample_not_zero sample_root Let_def)

lemma signUps_room:
  "length (leaves (stateTree s)) + length xs \<le> capacity (stateTree s) \<Longrightarrow>
   signUps env s xs =
     (s\<lparr>numSignUps := numSignUps s + length xs,
        stateTree := (stateTree s)\<lparr>leaves := leaves (stateTree s)
                       @ map (\<lambda>(pk, b, ts). hashLeaf env (newStateLeaf pk b ts)) xs\<rparr>,
        stateLeaves := stateLeaves s @ map (\<lambda>(pk, b, ts). newStateLeaf pk b ts) xs\<rparr>,
      map Inr [length (stateLeaves s)..<length (stateLeaves s) + length xs])"
proof (induction xs arbitrary: s)
  case Nil
  then show ?case by simp
next
  case (Cons x xs)
  obtain pk b ts where x: "x = (pk, b, ts)" by (cases x) auto
  let ?s1 = "s\<lparr>numSignUps := numSignUps s + 1,
              stateTree := (stateTree s)\<lparr>leaves := leaves (stateTree s) @ [hashLeaf env (newStateLeaf pk b ts)]\<rparr>,
              stateLeaves := stateLeaves s @ [newStateLeaf pk b ts]\<rparr>"
  from Cons.prems have room: "length (leaves (stateTree s)) < capacity (stateTree s)" by simp
  have step: "signUp env s pk b ts = (?s1, Inr (length (stateLeaves s)))"
    by (rule signUp_room [OF room])
  from Cons.prems have "length (leaves (stateTree ?s1)) + length xs \<le> capacity (stateTree ?s1)"
    by (simp add: capacity_def)
  from Cons.IH [OF this]
  have ih: "signUps env ?s1 xs =
     (s\<lparr>numSignUps := numSignUps s + length (x # xs),
        stateTree := (stateTree s)\<lparr>leaves := leaves (stateTree s)
                       @ map (\<lambda>(pk, b, ts). hashLeaf env (newStateLeaf pk b ts)) (x # xs)\<rparr>,
        stateLeaves := stateLeaves s @ map (\<lambda>(pk, b, ts). newStateLeaf pk b ts) (x # xs)\<rparr>,
      map Inr [Suc (length (stateLeaves s))..<length (stateLeaves s) + length (x # xs)])"
    by (simp add: x del: upt_Suc)
  have u: "[length (stateLeaves s)..<length (stateLeaves s) + length (x # xs)]
             = length (stateLeaves s) # [Suc (length (stateLeaves s))..<length (stateLeaves s) + length (x # xs)]"
    by (rule upt_conv_Cons) simp
  show ?case
    unfolding u x signUps.simps step
    using ih unfolding x by (simp add: upt_conv_Cons del: upt_Suc)
qed

section \<open>Sign-up\<close>

text \<open>With the sample parameters (arity five) and depth one the accumulator holds five
  leaves, the blank one included. Of five calls to \<open>signUp\<close> on the fresh object the
  fifth throws and appends nothing.\<close>

theorem signUps_beyond_capacity_counterexample:
  "newMaciState sampleEnv 1 = Inr (sampleFresh 1)
   \<and> snd (signUps sampleEnv (sampleFresh 1)
            [((1, 2), 100, 1), ((3, 4), 100, 2), ((5, 6), 100, 3), ((7, 8), 100, 4), ((9, 10), 100, 5)])
       = [Inr 1, Inr 2, Inr 3, Inr 4, Inl CapacityExceeded]
   \<and> length (stateLeaves (fst (signUps sampleEnv (sampleFresh 1)
            [((1, 2), 100, 1), ((3, 4), 100, 2), ((5, 6), 100, 3), ((7, 8), 100, 4), ((9, 10), 100, 5)])))
       = 5"
  by (simp add: sampleFresh_new)
     (simp add: sampleFresh_def sampleEnv_def signUp_def insert_leaf_def capacity_def Let_def)

text \<open>C4, amended: for every sequence of N calls to \<open>signUp\<close> on a freshly constructed
  \<open>MaciState\<close> that fits the accumulator (N + 1 \<open>\<le>\<close> ARITY ^ stateTreeDepth), each call
  appends a new \<open>StateLeaf\<close>, inserts its hash as the next accumulator leaf, increments
  \<open>numSignUps\<close> and returns the zero-based index of the new leaf, the first one being 1;
  the accumulator's leaf sequence is the blank-leaf hash followed by the hashes of the
  leaves in sign-up order, the list of leaves is the blank leaf followed by the leaves,
  and \<open>numSignUps\<close> is N + 1.\<close>

theorem signUps_within_capacity:
  assumes "newMaciState env d = Inr S0"
    and "Suc (length xs) \<le> STATE_TREE_ARITY env ^ d"
  shows "snd (signUps env S0 xs) = map Inr [1..<Suc (length xs)]
       \<and> stateLeaves (fst (signUps env S0 xs))
           = blankStateLeaf env # map (\<lambda>(pk, b, ts). newStateLeaf pk b ts) xs
       \<and> leaves (stateTree (fst (signUps env S0 xs)))
           = blankStateLeafHash env # map (\<lambda>(pk, b, ts). hashLeaf env (newStateLeaf pk b ts)) xs
       \<and> numSignUps (fst (signUps env S0 xs)) = Suc (length xs)"
proof -
  from assms(1) have s0: "leaves (stateTree S0) = [blankStateLeafHash env]"
    "stateLeaves S0 = [blankStateLeaf env]" "numSignUps S0 = 1"
    "capacity (stateTree S0) = STATE_TREE_ARITY env ^ d"
    by (simp_all add: newMaciState_Inr_iff capacity_def)
  with assms(2) have "length (leaves (stateTree S0)) + length xs \<le> capacity (stateTree S0)"
    by simp
  from signUps_room [OF this, of env] s0 show ?thesis by simp
qed

text \<open>Three sign-ups at depth one.\<close>

theorem signUps_within_capacity_witness:
  "Suc (length sampleVoters) \<le> STATE_TREE_ARITY sampleEnv ^ 1
   \<and> snd (signUps sampleEnv (sampleFresh 1) sampleVoters) = [Inr 1, Inr 2, Inr 3]
   \<and> leaves (stateTree (fst (signUps sampleEnv (sampleFresh 1) sampleVoters))) = [7, 317, 328, 339]
   \<and> numSignUps (fst (signUps sampleEnv (sampleFresh 1) sampleVoters)) = 4"
proof -
  have cap: "Suc (length sampleVoters) \<le> STATE_TREE_ARITY sampleEnv ^ 1"
    by (simp add: sampleVoters_def sampleEnv_def)
  have up: "[1..<4] = [1, 2, 3::nat]"
    by (simp add: upt_rec)
  have hs: "blankStateLeafHash sampleEnv
              # map (\<lambda>(pk, b, ts). hashLeaf sampleEnv (newStateLeaf pk b ts)) sampleVoters
            = [7, 317, 328, 339]"
    by (simp add: sampleVoters_def sampleEnv_def sampleHash_def newStateLeaf_def)
  have n: "Suc (length sampleVoters) = 4"
    by (simp add: sampleVoters_def)
  from signUps_within_capacity [OF sampleFresh_new cap] cap show ?thesis
    unfolding hs n up by simp
qed

text \<open>C7: for every reachable \<open>MaciState\<close> whose accumulator holds its full capacity of
  leaves (ARITY ^ stateTreeDepth), \<open>signUp\<close> fails with \<open>CapacityExceeded\<close> and leaves
  the leaves and the accumulator as they were (the counter \<open>numSignUps\<close>, incremented
  before the insertion, stays incremented); below capacity \<open>signUp\<close> does not fail: it
  returns the index of the leaf it appended.\<close>

theorem signUp_capacity:
  assumes "reachable env S"
  shows "(length (leaves (stateTree S)) = STATE_TREE_ARITY env ^ stateTreeDepth S \<longrightarrow>
            snd (signUp env S pk balance ts) = Inl CapacityExceeded
            \<and> stateLeaves (fst (signUp env S pk balance ts)) = stateLeaves S
            \<and> stateTree (fst (signUp env S pk balance ts)) = stateTree S
            \<and> numSignUps (fst (signUp env S pk balance ts)) = numSignUps S + 1)
       \<and> (length (leaves (stateTree S)) < STATE_TREE_ARITY env ^ stateTreeDepth S \<longrightarrow>
            snd (signUp env S pk balance ts) = Inr (length (stateLeaves S))
            \<and> stateLeaves (fst (signUp env S pk balance ts))
                = stateLeaves S @ [newStateLeaf pk balance ts])"
proof -
  from reachable_tree [OF assms]
  have cap: "capacity (stateTree S) = STATE_TREE_ARITY env ^ stateTreeDepth S"
    by (simp add: capacity_def)
  show ?thesis
    using signUp_full [of S env pk balance ts] signUp_room [of S env pk balance ts]
    by (simp add: cap)
qed

text \<open>Depth zero leaves room for the blank leaf only; depth one leaves room for four
  sign-ups.\<close>

theorem signUp_capacity_witness:
  "reachable sampleEnv (sampleFresh 0)
   \<and> snd (signUp sampleEnv (sampleFresh 0) (1, 2) 100 1) = Inl CapacityExceeded
   \<and> reachable sampleEnv (sampleFresh 1)
   \<and> snd (signUp sampleEnv (sampleFresh 1) (1, 2) 100 1) = Inr 1"
proof -
  have full: "length (leaves (stateTree (sampleFresh 0)))
                = STATE_TREE_ARITY sampleEnv ^ stateTreeDepth (sampleFresh 0)"
    by (simp add: sampleFresh_def sampleEnv_def)
  have room: "length (leaves (stateTree (sampleFresh 1)))
                < STATE_TREE_ARITY sampleEnv ^ stateTreeDepth (sampleFresh 1)"
    by (simp add: sampleFresh_def sampleEnv_def)
  have one: "length (stateLeaves (sampleFresh 1)) = 1"
    by (simp add: sampleFresh_def)
  from signUp_capacity [OF sampleFresh_reachable, of 0 "(1, 2)" 100 1] full
    signUp_capacity [OF sampleFresh_reachable, of 1 "(1, 2)" 100 1] room one
  show ?thesis
    by (simp add: sampleFresh_reachable)
qed

section \<open>Equality\<close>

text \<open>C10: for any two \<open>MaciState\<close> values with the same \<open>stateTreeDepth\<close>, the same
  number of polls and of state leaves, and pairwise-equal polls and leaves, \<open>equals\<close>
  returns true whatever the values of \<open>numSignUps\<close>, of the accumulator, of
  \<open>pollBeingProcessed\<close> and of \<open>currentPollBeingProcessed\<close> on either side.\<close>

theorem equals_ignores_untracked_fields:
  assumes "stateTreeDepth S = stateTreeDepth T"
    and "length (polls S) = length (polls T)"
    and "length (stateLeaves S) = length (stateLeaves T)"
    and "\<forall>i<length (polls S). pollEquals (polls S ! i) (polls T ! i) = Inr True"
    and "\<forall>i<length (stateLeaves S). stateLeaves S ! i = stateLeaves T ! i"
  shows "equals (S\<lparr>numSignUps := nS, stateTree := tS, pollBeingProcessed := bS,
                   currentPollBeingProcessed := cS\<rparr>)
                (T\<lparr>numSignUps := nT, stateTree := tT, pollBeingProcessed := bT,
                   currentPollBeingProcessed := cT\<rparr>) = Inr True"
  using assms pollsLoop_all [of "polls S" "polls T"] leavesLoop_all [of "stateLeaves S" "stateLeaves T"]
  by (simp add: equals_def)

text \<open>Two objects that differ in all four of those fields.\<close>

theorem equals_ignores_untracked_fields_witness:
  "equals ((sampleFresh 2)\<lparr>polls := [Some samplePoll], numSignUps := 9, stateTree := newTree 3 0 5,
              pollBeingProcessed := Some True, currentPollBeingProcessed := Some (Num 4)\<rparr>)
          ((sampleFresh 2)\<lparr>polls := [Some samplePoll], numSignUps := 1, stateTree := newTree 2 7 5,
              pollBeingProcessed := None, currentPollBeingProcessed := None\<rparr>) = Inr True"
  using equals_ignores_untracked_fields
    [where S = "(sampleFresh 2)\<lparr>polls := [Some samplePoll]\<rparr>"
       and T = "(sampleFresh 2)\<lparr>polls := [Some samplePoll]\<rparr>"
       and nS = 9 and tS = "newTree 3 0 5" and bS = "Some True" and cS = "Some (Num 4)"
       and nT = 1 and tT = "newTree 2 7 5" and bT = None and cT = None]
  by (simp add: pollEquals_def sampleFresh_def)


section \<open>Serialization\<close>

text \<open>C2: for every \<open>MaciState\<close> built by the constructor followed by any sequence of
  \<open>signUp\<close> and \<open>deployPoll\<close> calls, serialization succeeds, deserializing the serialized
  record succeeds, and the result is \<open>equals\<close>-equal to the original, nested polls
  included. The codecs of leaves and polls are outside \<open>src/\<close>; the theorem asks of them
  that decoding an encoded leaf or poll gives it back.\<close>

theorem fromJSON_toJSON_equals:
  assumes "built env S" and "codecsRoundTrip env"
  shows "\<exists>r S'. toJSON env S = Inr r \<and> fromJSON env r = Inr S' \<and> equals S' S = Inr True"
proof -
  from built_no_null [OF assms(1)] obtain ps where ps: "polls S = map Some ps"
    using no_null_map_Some by blast
  from toJSON_Some [OF ps, of env] obtain r where r: "toJSON env S = Inr r" by blast
  have reach: "reachable env S" by (rule built_reachable [OF assms(1)])
  note f = fromJSON_toJSON [OF assms(2) ps reachable_fits [OF reach] r]
  have "equals (S\<lparr>stateTree := \<lparr>depth = stateTreeDepth S, zeroValue = blankStateLeafHash env,
                                 arity = STATE_TREE_ARITY env,
                                 leaves = blankStateLeafHash env
                                          # map (hashLeaf env) (drop 1 (stateLeaves S))\<rparr>,
                  pollBeingProcessed := Some (pollBeingProcessedJ r),
                  currentPollBeingProcessed := Some (parseInt10 (currentPollBeingProcessedJ r))\<rparr>) S
          = Inr True"
    by (simp add: equals_def ps pollsLoop_refl leavesLoop_refl)
  with r f show ?thesis by blast
qed

text \<open>The scenario of the spec.\<close>

theorem fromJSON_toJSON_equals_witness:
  "built sampleEnv sampleState \<and> codecsRoundTrip sampleEnv
   \<and> (\<exists>r S'. toJSON sampleEnv sampleState = Inr r \<and> fromJSON sampleEnv r = Inr S'
              \<and> equals S' sampleState = Inr True)"
  using fromJSON_toJSON_equals [OF sampleState_built sample_codecs] sampleState_built sample_codecs
  by blast



section \<open>The blank leaf\<close>

text \<open>\<open>fromJSON\<close> takes the list of leaves from the record as it is: a record whose first
  leaf is not the blank leaf deserializes to an object whose \<open>stateLeaves[0]\<close> is not the
  blank leaf.\<close>

theorem fromJSON_tampered_counterexample:
  "fromJSON sampleEnv tamperedRecord
     = Inr ((sampleFresh 1)\<lparr>stateLeaves := [newStateLeaf (1, 2) 100 1],
                             pollBeingProcessed := Some False,
                             currentPollBeingProcessed := Some NaN\<rparr>)
   \<and> newStateLeaf (1, 2) 100 1 \<noteq> blankStateLeaf sampleEnv"
  by (simp add: fromJSON_def tamperedRecord_def sampleFresh_new)
     (simp add: sampleFresh_def sampleEnv_def newStateLeaf_def parseInt10_empty)

text \<open>C6, amended: provided the two imported constants agree (the hash of
  \<open>blankStateLeaf\<close> is \<open>blankStateLeafHash\<close>): for every freshly constructed
  \<open>MaciState\<close>, \<open>stateLeaves[0]\<close> is the blank leaf, its hash is the blank-leaf-hash
  constant and the accumulator's leaf at position 0 is that constant; for every
  \<open>MaciState\<close> produced by deserialization the accumulator's leaf at position 0 is that
  constant; \<open>stateLeaves[0]\<close> of a deserialized object is the blank leaf, with the
  constant as its hash, when the first leaf of the record decodes to the blank leaf, and
  so it is for every record produced by serializing a reachable object.\<close>

theorem blank_leaf_invariant:
  assumes "hashLeaf env (blankStateLeaf env) = blankStateLeafHash env"
  shows "(newMaciState env d = Inr S \<longrightarrow>
            stateLeaves S ! 0 = blankStateLeaf env
            \<and> hashLeaf env (stateLeaves S ! 0) = blankStateLeafHash env
            \<and> leaves (stateTree S) ! 0 = blankStateLeafHash env)
       \<and> (fromJSON env r = Inr S' \<longrightarrow> leaves (stateTree S') ! 0 = blankStateLeafHash env)
       \<and> (fromJSON env r = Inr S' \<and> stateLeavesJ r = j # js
            \<and> leafFromJSON env j = Inr (blankStateLeaf env) \<longrightarrow>
            stateLeaves S' ! 0 = blankStateLeaf env
            \<and> hashLeaf env (stateLeaves S' ! 0) = blankStateLeafHash env)
       \<and> (codecsRoundTrip env \<and> reachable env S0 \<and> toJSON env S0 = Inr r0
            \<and> fromJSON env r0 = Inr S1 \<longrightarrow>
            stateLeaves S1 ! 0 = blankStateLeaf env
            \<and> hashLeaf env (stateLeaves S1 ! 0) = blankStateLeafHash env
            \<and> leaves (stateTree S1) ! 0 = blankStateLeafHash env)"
proof (intro conjI impI)
  assume "newMaciState env d = Inr S"
  then have "stateLeaves S = [blankStateLeaf env]"
    "leaves (stateTree S) = [blankStateLeafHash env]"
    by (simp_all add: newMaciState_Inr_iff)
  with assms show "stateLeaves S ! 0 = blankStateLeaf env"
    "hashLeaf env (stateLeaves S ! 0) = blankStateLeafHash env"
    "leaves (stateTree S) ! 0 = blankStateLeafHash env"
    by simp_all
next
  assume f: "fromJSON env r = Inr S'"
  from fromJSON_Inr [OF f] obtain t where
    pos: "0 < STATE_TREE_ARITY env ^ stateTreeDepthJ r" and
    t: "reinsert env \<lparr>depth = stateTreeDepthJ r, zeroValue = blankStateLeafHash env,
                      arity = STATE_TREE_ARITY env, leaves = [blankStateLeafHash env]\<rparr>
              (drop 1 (stateLeavesJ r)) = Inr t" and
    st: "stateTree S' = t"
    by auto
  have "length (leaves \<lparr>depth = stateTreeDepthJ r, zeroValue = blankStateLeafHash env,
                      arity = STATE_TREE_ARITY env, leaves = [blankStateLeafHash env]\<rparr>)
          \<le> capacity \<lparr>depth = stateTreeDepthJ r, zeroValue = blankStateLeafHash env,
                      arity = STATE_TREE_ARITY env, leaves = [blankStateLeafHash env]\<rparr>"
    using pos by (simp add: capacity_def Suc_le_eq)
  from reinsert_Inr [OF t this] have "leaves t \<noteq> []" "hd (leaves t) = blankStateLeafHash env"
    by simp_all
  with st show "leaves (stateTree S') ! 0 = blankStateLeafHash env"
    by (simp add: hd_conv_nth)
next
  assume a: "fromJSON env r = Inr S' \<and> stateLeavesJ r = j # js
             \<and> leafFromJSON env j = Inr (blankStateLeaf env)"
  then have f: "fromJSON env r = Inr S'" by simp
  from fromJSON_Inr [OF f] obtain ls where
    ls: "mapE (leafFromJSON env) (stateLeavesJ r) = Inr ls" and sl: "stateLeaves S' = ls"
    by auto
  from ls a obtain ls' where "ls = blankStateLeaf env # ls'"
    by (auto split: sum.splits)
  with sl assms show "stateLeaves S' ! 0 = blankStateLeaf env"
    "hashLeaf env (stateLeaves S' ! 0) = blankStateLeafHash env"
    by simp_all
next
  assume a: "codecsRoundTrip env \<and> reachable env S0 \<and> toJSON env S0 = Inr r0
             \<and> fromJSON env r0 = Inr S1"
  then have reach: "reachable env S1"
    by (blast intro: reach_fromJSON)
  from a have rt: "codecsRoundTrip env" by simp
  from reachable_blank [OF rt reach] have "stateLeaves S1 ! 0 = blankStateLeaf env"
    by (clarsimp simp add: hd_conv_nth)
  moreover from reachable_tree [OF reach] have "leaves (stateTree S1) ! 0 = blankStateLeafHash env"
    by (clarsimp simp add: hd_conv_nth)
  ultimately show "stateLeaves S1 ! 0 = blankStateLeaf env"
    "hashLeaf env (stateLeaves S1 ! 0) = blankStateLeafHash env"
    "leaves (stateTree S1) ! 0 = blankStateLeafHash env"
    using assms by simp_all
qed

text \<open>The fresh object of depth one, its serialization, and what that deserializes to.\<close>

theorem blank_leaf_invariant_witness:
  "hashLeaf sampleEnv (blankStateLeaf sampleEnv) = blankStateLeafHash sampleEnv
   \<and> newMaciState sampleEnv 1 = Inr (sampleFresh 1)
   \<and> stateLeaves (sampleFresh 1) ! 0 = blankStateLeaf sampleEnv
   \<and> leaves (stateTree (sampleFresh 1)) ! 0 = blankStateLeafHash sampleEnv
   \<and> reachable sampleEnv (sampleFresh 1)
   \<and> toJSON sampleEnv (sampleFresh 1) = Inr freshRecord
   \<and> fromJSON sampleEnv freshRecord
       = Inr ((sampleFresh 1)\<lparr>pollBeingProcessed := Some False,
                               currentPollBeingProcessed := Some NaN\<rparr>)
   \<and> stateLeaves ((sampleFresh 1)\<lparr>pollBeingProcessed := Some False,
                                   currentPollBeingProcessed := Some NaN\<rparr>) ! 0
       = blankStateLeaf sampleEnv
   \<and> hashLeaf sampleEnv (stateLeaves ((sampleFresh 1)\<lparr>pollBeingProcessed := Some False,
                                   currentPollBeingProcessed := Some NaN\<rparr>) ! 0)
       = blankStateLeafHash sampleEnv"
proof -
  let ?S' = "(sampleFresh 1)\<lparr>pollBeingProcessed := Some False,
                             currentPollBeingProcessed := Some NaN\<rparr>"
  have h: "hashLeaf sampleEnv (blankStateLeaf sampleEnv) = blankStateLeafHash sampleEnv"
    by (simp add: sampleEnv_def sampleHash_def newStateLeaf_def)
  have t: "toJSON sampleEnv (sampleFresh 1) = Inr freshRecord"
    by (simp add: toJSON_def freshRecord_def sampleFresh_def sampleEnv_def)
  have f: "fromJSON sampleEnv freshRecord = Inr ?S'"
    by (simp add: fromJSON_def freshRecord_def sampleFresh_new)
       (simp add: sampleFresh_def sampleEnv_def parseInt10_empty)
  have j: "stateLeavesJ freshRecord = newStateLeaf (0, 0) 0 0 # []"
    "leafFromJSON sampleEnv (newStateLeaf (0, 0) 0 0) = Inr (blankStateLeaf sampleEnv)"
    by (simp_all add: freshRecord_def sampleEnv_def)
  from blank_leaf_invariant
         [OF h, where d = 1 and S = "sampleFresh 1" and r = freshRecord and S' = ?S'
            and j = "newStateLeaf (0, 0) 0 0" and js = "[]"
            and ?S0.0 = "sampleFresh 1" and ?r0.0 = freshRecord and ?S1.0 = ?S']
       h t f j sampleFresh_new sampleFresh_reachable sample_codecs
  show ?thesis by simp
qed

section \<open>Copy\<close>

text \<open>What \<open>copy\<close> returns is described by \<open>copy_Inr\<close>: the leaves, the polls and the
  depth of the original, the accumulator and the counter of the constructor.\<close>

text \<open>C1: \<open>copy\<close> is claimed to re-seed the accumulator of the copy with the leaf sequence
  of the original. Evaluated after one sign-up at depth one: the original's accumulator
  holds the blank-leaf hash and the hash of the new leaf, the copy's accumulator holds the
  blank-leaf hash only, although the copy has both leaves in \<open>stateLeaves\<close>.\<close>

theorem copy_resets_accumulator:
  "copy sampleEnv (fst (signUp sampleEnv (sampleFresh 1) (1, 2) 100 1))
     = Inr ((sampleFresh 1)\<lparr>stateLeaves := [newStateLeaf (0, 0) 0 0, newStateLeaf (1, 2) 100 1]\<rparr>)
   \<and> leaves (stateTree (fst (signUp sampleEnv (sampleFresh 1) (1, 2) 100 1))) = [7, 317]
   \<and> leaves (stateTree ((sampleFresh 1)\<lparr>stateLeaves := [newStateLeaf (0, 0) 0 0,
                                                          newStateLeaf (1, 2) 100 1]\<rparr>)) = [7]"
  by (simp add: copy_def signUp_def Let_def insert_leaf_def capacity_def sampleFresh_new)
     (simp add: sampleFresh_def sampleEnv_def sampleHash_def newStateLeaf_def)

text \<open>C3: \<open>stateLeaves.length == numSignUps\<close> is claimed to be preserved by \<open>copy\<close>.
  Evaluated after one sign-up: the original has two leaves and \<open>numSignUps = 2\<close>, the copy
  has two leaves and \<open>numSignUps = 1\<close>. The constructor, a \<open>signUp\<close> that returns,
  \<open>deployPoll\<close>, \<open>deployNullPoll\<close> and \<open>fromJSON\<close> of a serialized object keep the
  equality (\<open>counter_invariant_other_operations\<close>).\<close>

theorem copy_resets_numSignUps:
  "map_sum id (\<lambda>c. (length (stateLeaves c), numSignUps c))
     (copy sampleEnv (fst (signUp sampleEnv (sampleFresh 1) (1, 2) 100 1))) = Inr (2, 1)
   \<and> numSignUps (fst (signUp sampleEnv (sampleFresh 1) (1, 2) 100 1)) = 2"
  by (simp add: copy_def signUp_def Let_def insert_leaf_def capacity_def sampleFresh_new)
     (simp add: sampleFresh_def sampleEnv_def)

section \<open>Gates of the proof generator service\<close>

text \<open>C8: for every invocation of \<open>generate\<close> in which the poll contract is asked for the
  state-merged flag and reports it as false, the invocation fails with
  \<open>NOT_MERGED_STATE_TREE\<close> and neither the state reconstruction nor the proof backend
  (message-processing proofs, tally proofs) is called.\<close>

theorem generate_state_not_merged:
  assumes "w_getContract w MACI (maciContractAddress a) = Inr maciContract"
    and "w_polls w maciContract (poll a) = Inr pollAddress"
    and "w_getContract w PollContract pollAddress = Inr pollContract"
    and "w_stateMerged w pollContract = Inr False"
    and "CallStateMerged \<in> set (fst (generate w a))"
  shows "snd (generate w a) = Inl NOT_MERGED_STATE_TREE
       \<and> CallPrepareState \<notin> set (fst (generate w a))
       \<and> CallGenerateMpProofs \<notin> set (fst (generate w a))
       \<and> CallGenerateTallyProofs \<notin> set (fst (generate w a))"
  using assms
  unfolding generate_def
  by (auto simp add: ext_alt ext2_alt logThrow_def split: sum.splits if_splits)

text \<open>The sample world with the flag reported as false.\<close>

theorem generate_state_not_merged_witness:
  "w_stateMerged (sampleWorld\<lparr>w_stateMerged := \<lambda>p. Inr False\<rparr>) ''0xA1'' = Inr False
   \<and> CallStateMerged \<in> set (fst (generate (sampleWorld\<lparr>w_stateMerged := \<lambda>p. Inr False\<rparr>) sampleArgs))
   \<and> snd (generate (sampleWorld\<lparr>w_stateMerged := \<lambda>p. Inr False\<rparr>) sampleArgs)
       = Inl NOT_MERGED_STATE_TREE
   \<and> CallGenerateMpProofs
       \<notin> set (fst (generate (sampleWorld\<lparr>w_stateMerged := \<lambda>p. Inr False\<rparr>) sampleArgs))
   \<and> CallGenerateTallyProofs
       \<notin> set (fst (generate (sampleWorld\<lparr>w_stateMerged := \<lambda>p. Inr False\<rparr>) sampleArgs))"
proof -
  let ?w = "sampleWorld\<lparr>w_stateMerged := \<lambda>p. Inr False\<rparr>"
  have h1: "w_getContract ?w MACI (maciContractAddress sampleArgs) = Inr ''0xM0''"
    and h2: "w_polls ?w ''0xM0'' (poll sampleArgs) = Inr ''0xA1''"
    and h3: "w_getContract ?w PollContract ''0xA1'' = Inr ''0xA1''"
    and h4: "w_stateMerged ?w ''0xA1'' = Inr False"
    by (simp_all add: sampleWorld_def sampleArgs_def)
  have h5: "CallStateMerged \<in> set (fst (generate ?w sampleArgs))"
    by (simp add: sample_run_unmerged)
  from generate_state_not_merged [OF h1 h2 h3 h4 h5] h4 h5 show ?thesis
    by simp
qed

text \<open>C9: for every invocation of \<open>generate\<close> in which the encrypted coordinator private
  key is decrypted and deserialized successfully and the public key derived from it
  differs from the public key committed in the poll contract, the invocation fails with
  \<open>PRIVATE_KEY_MISMATCH\<close> and \<open>prepareState\<close>, the scan of the chain events, is not
  called, nor is the proof backend.\<close>

theorem generate_private_key_mismatch:
  assumes "w_getContract w MACI (maciContractAddress a) = Inr maciContract"
    and "w_polls w maciContract (poll a) = Inr pollAddress"
    and "w_getContract w PollContract pollAddress = Inr pollContract"
    and "w_coordinatorPubKey w pollContract = Inr onChainKey"
    and "w_getPrivateKey w = Inr privateKey"
    and "w_decrypt w privateKey (encryptedCoordinatorPrivateKey a) = Inr plain"
    and "w_privKeyDeserialize w plain = Inr maciPrivateKey"
    and "w_genPubKey w maciPrivateKey \<noteq> onChainKey"
    and "CallDecrypt \<in> set (fst (generate w a))"
  shows "snd (generate w a) = Inl PRIVATE_KEY_MISMATCH
       \<and> CallPrepareState \<notin> set (fst (generate w a))
       \<and> CallGenerateMpProofs \<notin> set (fst (generate w a))
       \<and> CallGenerateTallyProofs \<notin> set (fst (generate w a))"
  using assms
  unfolding generate_def
  by (auto simp add: ext_alt ext2_alt logThrow_def Let_def split: sum.splits if_splits)

text \<open>The sample world: the key decrypts to 11, which derives (11, 12), and the contract
  commits to (3, 4).\<close>

theorem generate_private_key_mismatch_witness:
  "w_genPubKey sampleWorld 11 \<noteq> (3, 4)
   \<and> CallDecrypt \<in> set (fst (generate sampleWorld sampleArgs))
   \<and> snd (generate sampleWorld sampleArgs) = Inl PRIVATE_KEY_MISMATCH
   \<and> CallPrepareState \<notin> set (fst (generate sampleWorld sampleArgs))"
proof -
  have h1: "w_getContract sampleWorld MACI (maciContractAddress sampleArgs) = Inr ''0xM0''"
    and h2: "w_polls sampleWorld ''0xM0'' (poll sampleArgs) = Inr ''0xA1''"
    and h3: "w_getContract sampleWorld PollContract ''0xA1'' = Inr ''0xA1''"
    and h4: "w_coordinatorPubKey sampleWorld ''0xA1'' = Inr (3, 4)"
    and h5: "w_getPrivateKey sampleWorld = Inr ''rsa''"
    and h6: "w_decrypt sampleWorld ''rsa'' (encryptedCoordinatorPrivateKey sampleArgs) = Inr ''sk11''"
    and h7: "w_privKeyDeserialize sampleWorld ''sk11'' = Inr 11"
    and h8: "w_genPubKey sampleWorld 11 \<noteq> (3, 4)"
    by (simp_all add: sampleWorld_def sampleArgs_def)
  have h9: "CallDecrypt \<in> set (fst (generate sampleWorld sampleArgs))"
    by (simp add: sample_run)
  from generate_private_key_mismatch [OF h1 h2 h3 h4 h5 h6 h7 h8 h9] h8 h9 show ?thesis
    by simp
qed

end
